theory Spec2Isabelle
  imports Main "HOL-Library.Product_Lexorder" "HOL-Library.Multiset"
begin

section \<open>The data-access layer of the messenger: app/models/cassandra_models.py\<close>

text \<open>
  The module talks to a Cassandra keyspace through \<open>cassandra_client.execute\<close>. The
  store is modelled as three tables, each the list of its rows in the order a full scan
  returns them. The source's \<open>datetime\<close> values are integers (microseconds, the
  resolution of Python's \<open>datetime\<close>), which the store keeps as they are written; the
  clock reading \<open>datetime.now()\<close> is an argument of every operation that takes it, and
  Python's unbounded \<open>int\<close> is \<open>int\<close>.
\<close>

subsection \<open>Rows, responses and the store\<close>

type_synonym datetime = int

definition second :: datetime where
  "second = 1000000"

text \<open>A row of \<open>messages\<close>.\<close>

record message_row =
  mr_message_id :: int
  mr_conversation_id :: int
  mr_sender_id :: int
  mr_receiver_id :: int
  mr_content :: string
  mr_timestamp :: datetime

text \<open>A row of \<open>conversations\<close>, with the columns the INSERT of the source names.\<close>

record conversation_row =
  cr_conversation_id :: int
  cr_user1_id :: int
  cr_user2_id :: int
  cr_last_timestamp :: datetime

text \<open>A row of \<open>last_message_cache\<close>; the two last-message columns can be null.\<close>

record cache_row =
  lc_conversation_id :: int
  lc_sender_id :: int
  lc_receiver_id :: int
  lc_last_timestamp :: "datetime option"
  lc_last_message :: "string option"

record store =
  messages :: "message_row list"
  conversations :: "conversation_row list"
  last_message_cache :: "cache_row list"

definition empty_store :: store where
  "empty_store = \<lparr>messages = [], conversations = [], last_message_cache = []\<rparr>"

text \<open>The dict \<open>create_message\<close> returns.\<close>

record message_response =
  message_id :: int
  sender_id :: int
  receiver_id :: int
  content :: string
  timestamp :: datetime
  conversation_id :: int

text \<open>The dicts of the two message listings (keys \<open>id\<close>, \<open>sender_id\<close>, \<open>receiver_id\<close>,
  \<open>content\<close>, \<open>created_at\<close>, \<open>conversation_id\<close>).\<close>

record message_item =
  mi_id :: int
  mi_sender_id :: int
  mi_receiver_id :: int
  mi_content :: string
  mi_created_at :: datetime
  mi_conversation_id :: int

text \<open>The dict of \<open>get_conversation\<close> and \<open>create_or_get_conversation\<close>.\<close>

record conversation_response =
  cv_conversation_id :: int
  cv_sender_id :: int
  cv_receiver_id :: int
  cv_last_message_at :: "datetime option"
  cv_last_message_content :: "string option"



subsection \<open>The storage client\<close>

text \<open>
  Modelled from the spec: the table layout, which the repository creates outside
  app/models. Section 6 gives \<open>messages(conversation_id PARTITION, timestamp CLUSTERING
  DESC, ...)\<close>, \<open>conversations(conversation_id PARTITION, ...)\<close> and
  \<open>last_message_cache(conversation_id PARTITION, ...)\<close>. A write to a primary key that
  is present replaces that row (INSERT and UPDATE are both upserts in CQL); a new row
  takes its place in scan order: partitions by the partitioner's token \<open>tok\<close> (a
  parameter: it belongs to the cluster), rows of one partition by the clustering column.
\<close>

fun upsert_by :: "('r \<Rightarrow> 'k::linorder) \<Rightarrow> 'r \<Rightarrow> 'r list \<Rightarrow> 'r list" where
  "upsert_by key r [] = [r]"
| "upsert_by key r (x # xs) =
     (if key r = key x then r # xs
      else if key r < key x then r # x # xs
      else x # upsert_by key r xs)"

definition message_key :: "(int \<Rightarrow> int) \<Rightarrow> message_row \<Rightarrow> int \<times> int \<times> int" where
  "message_key tok r = (tok (mr_conversation_id r), mr_conversation_id r, - mr_timestamp r)"

definition conversation_key :: "(int \<Rightarrow> int) \<Rightarrow> conversation_row \<Rightarrow> int \<times> int" where
  "conversation_key tok r = (tok (cr_conversation_id r), cr_conversation_id r)"

definition cache_key :: "(int \<Rightarrow> int) \<Rightarrow> cache_row \<Rightarrow> int \<times> int" where
  "cache_key tok r = (tok (lc_conversation_id r), lc_conversation_id r)"

text \<open>\<open>INSERT INTO messages (...) VALUES (...)\<close>\<close>

definition insert_message :: "(int \<Rightarrow> int) \<Rightarrow> message_row \<Rightarrow> store \<Rightarrow> store" where
  "insert_message tok r s = s\<lparr>messages := upsert_by (message_key tok) r (messages s)\<rparr>"

text \<open>\<open>INSERT INTO conversations (...) VALUES (...)\<close>\<close>

definition insert_conversation :: "(int \<Rightarrow> int) \<Rightarrow> conversation_row \<Rightarrow> store \<Rightarrow> store" where
  "insert_conversation tok r s =
     s\<lparr>conversations := upsert_by (conversation_key tok) r (conversations s)\<rparr>"

text \<open>\<open>INSERT INTO last_message_cache\<close> with all five columns, and \<open>UPDATE
  last_message_cache SET\<close> the four other columns \<open>WHERE conversation_id = ...\<close>: both
  leave the row of that key with exactly the values given.\<close>

definition write_cache :: "(int \<Rightarrow> int) \<Rightarrow> cache_row \<Rightarrow> store \<Rightarrow> store" where
  "write_cache tok r s =
     s\<lparr>last_message_cache := upsert_by (cache_key tok) r (last_message_cache s)\<rparr>"

text \<open>\<open>SELECT ... FROM messages WHERE conversation_id = %s ORDER BY timestamp DESC\<close>\<close>

definition select_messages :: "store \<Rightarrow> int \<Rightarrow> message_row list" where
  "select_messages s cid =
     sort_key (\<lambda>r. - mr_timestamp r) (filter (\<lambda>r. mr_conversation_id r = cid) (messages s))"

text \<open>\<open>SELECT ... FROM messages WHERE conversation_id = %s AND timestamp < %s ORDER BY
  timestamp DESC\<close>\<close>

definition select_messages_before :: "store \<Rightarrow> int \<Rightarrow> datetime \<Rightarrow> message_row list" where
  "select_messages_before s cid before_timestamp =
     sort_key (\<lambda>r. - mr_timestamp r)
       (filter (\<lambda>r. mr_conversation_id r = cid \<and> mr_timestamp r < before_timestamp)
          (messages s))"

text \<open>\<open>SELECT ... FROM last_message_cache WHERE conversation_id = %s\<close>\<close>

definition select_cache :: "store \<Rightarrow> int \<Rightarrow> cache_row list" where
  "select_cache s cid = filter (\<lambda>r. lc_conversation_id r = cid) (last_message_cache s)"



text \<open>\<open>... WHERE sender_id = %s AND receiver_id = %s ALLOW FILTERING\<close>\<close>

definition select_cache_by_pair :: "store \<Rightarrow> int \<Rightarrow> int \<Rightarrow> cache_row list" where
  "select_cache_by_pair s a b =
     filter (\<lambda>r. lc_sender_id r = a \<and> lc_receiver_id r = b) (last_message_cache s)"

subsection \<open>Python list slicing and sorting\<close>

text \<open>\<open>xs[a:b]\<close>: a negative bound counts from the end, and both bounds are clamped to
  the list.\<close>

definition py_index :: "int \<Rightarrow> int \<Rightarrow> int" where
  "py_index n i = (if i < 0 then max 0 (n + i) else min i n)"

definition py_slice :: "'a list \<Rightarrow> int \<Rightarrow> int \<Rightarrow> 'a list" where
  "py_slice xs a b =
     (let n = int (length xs); lo = py_index n a; hi = py_index n b
      in take (nat (hi - lo)) (drop (nat lo) xs))"



subsection \<open>MessageModel\<close>

definition get_new_message_id :: "store \<Rightarrow> int" where
  "get_new_message_id s =
     (case take 1 (messages s) of
        [] \<Rightarrow> 1
      | r # _ \<Rightarrow> mr_message_id r + 1)"

definition create_message ::
  "(int \<Rightarrow> int) \<Rightarrow> store \<Rightarrow> datetime \<Rightarrow> int \<Rightarrow> int \<Rightarrow> int \<Rightarrow> string \<Rightarrow> message_response \<times> store"
where
  "create_message tok s now cid sender receiver text =
     (let mid = get_new_message_id s;
          created_at = now;
          s1 = insert_message tok
                 \<lparr>mr_message_id = mid, mr_conversation_id = cid, mr_sender_id = sender,
                  mr_receiver_id = receiver, mr_content = text, mr_timestamp = created_at\<rparr> s;
          s2 = write_cache tok
                 \<lparr>lc_conversation_id = cid, lc_sender_id = sender, lc_receiver_id = receiver,
                  lc_last_timestamp = Some created_at, lc_last_message = Some text\<rparr> s1
      in (\<lparr>message_id = mid, sender_id = sender, receiver_id = receiver, content = text,
           timestamp = created_at, conversation_id = cid\<rparr>, s2))"

definition message_item_of :: "int \<Rightarrow> message_row \<Rightarrow> message_item" where
  "message_item_of cid row =
     \<lparr>mi_id = mr_message_id row, mi_sender_id = mr_sender_id row,
      mi_receiver_id = mr_receiver_id row, mi_content = mr_content row,
      mi_created_at = mr_timestamp row, mi_conversation_id = cid\<rparr>"

definition get_conversation_messages ::
  "store \<Rightarrow> int \<Rightarrow> int \<Rightarrow> int \<Rightarrow> message_item list \<times> int"
where
  "get_conversation_messages s cid page limit =
     (let total = int (length (filter (\<lambda>r. mr_conversation_id r = cid) (messages s)));
          rows = select_messages s cid;
          msgs = map (message_item_of cid) rows;
          total = int (length msgs);
          offset = (page - 1) * limit;
          paginated_messages = py_slice msgs offset (offset + limit);
          msgs = (if paginated_messages \<noteq> [] then paginated_messages else [])
      in (msgs, total))"

definition get_messages_before_timestamp ::
  "store \<Rightarrow> int \<Rightarrow> datetime \<Rightarrow> int \<Rightarrow> int \<Rightarrow> message_item list \<times> int"
where
  "get_messages_before_timestamp s cid before_timestamp page limit =
     (let total = int (length (filter (\<lambda>r. mr_conversation_id r = cid
                                            \<and> mr_timestamp r < before_timestamp) (messages s)));
          rows = select_messages_before s cid before_timestamp;
          msgs = map (message_item_of cid) rows;
          total = int (length msgs);
          offset = (page - 1) * limit;
          paginated_messages = py_slice msgs offset (offset + limit);
          msgs = (if paginated_messages \<noteq> [] then paginated_messages else [])
      in (msgs, total))"

subsection \<open>ConversationModel\<close>

definition get_new_conversation_id :: "store \<Rightarrow> int" where
  "get_new_conversation_id s =
     (case take 1 (conversations s) of
        [] \<Rightarrow> 1
      | r # _ \<Rightarrow> cr_conversation_id r + 1)"



definition conversation_response_of :: "cache_row \<Rightarrow> conversation_response" where
  "conversation_response_of row =
     \<lparr>cv_conversation_id = lc_conversation_id row, cv_sender_id = lc_sender_id row,
      cv_receiver_id = lc_receiver_id row, cv_last_message_at = lc_last_timestamp row,
      cv_last_message_content = lc_last_message row\<rparr>"

text \<open>\<open>None\<close> is Python's \<open>None\<close>.\<close>

definition get_conversation :: "store \<Rightarrow> int \<Rightarrow> conversation_response option" where
  "get_conversation s cid =
     (case select_cache s cid of
        [] \<Rightarrow> None
      | row # _ \<Rightarrow> Some (conversation_response_of row))"

definition create_or_get_conversation ::
  "(int \<Rightarrow> int) \<Rightarrow> store \<Rightarrow> datetime \<Rightarrow> int \<Rightarrow> int \<Rightarrow> conversation_response option \<times> store"
where
  "create_or_get_conversation tok s now user1_id user2_id =
     (case select_cache_by_pair s user1_id user2_id of
        row # _ \<Rightarrow> (get_conversation s (lc_conversation_id row), s)
      | [] \<Rightarrow>
         (case select_cache_by_pair s user2_id user1_id of
            row # _ \<Rightarrow> (get_conversation s (lc_conversation_id row), s)
          | [] \<Rightarrow>
             (let cid = get_new_conversation_id s;
                  created_at = now;
                  s1 = insert_conversation tok
                         \<lparr>cr_conversation_id = cid, cr_user1_id = user1_id,
                          cr_user2_id = user2_id, cr_last_timestamp = created_at\<rparr> s;
                  s2 = write_cache tok
                         \<lparr>lc_conversation_id = cid, lc_sender_id = user1_id,
                          lc_receiver_id = user2_id, lc_last_timestamp = Some created_at,
                          lc_last_message = None\<rparr> s1
              in (Some \<lparr>cv_conversation_id = cid, cv_sender_id = user1_id,
                        cv_receiver_id = user2_id, cv_last_message_at = Some created_at,
                        cv_last_message_content = None\<rparr>, s2))))"


section \<open>Notions the properties are stated with\<close>

text \<open>The list \<open>messages\<close> of \<open>get_conversation_messages\<close> before it is sliced: the whole
  conversation, newest first.\<close>

definition all_messages :: "store \<Rightarrow> int \<Rightarrow> message_item list" where
  "all_messages s cid = map (message_item_of cid) (select_messages s cid)"

text \<open>The listing entry that shows a message \<open>create_message\<close> has returned.\<close>

definition item_of_response :: "message_response \<Rightarrow> message_item" where
  "item_of_response m =
     \<lparr>mi_id = message_id m, mi_sender_id = sender_id m, mi_receiver_id = receiver_id m,
      mi_content = content m, mi_created_at = timestamp m,
      mi_conversation_id = conversation_id m\<rparr>"

text \<open>The scenario of the spec: one \<open>create_message\<close> per content, the clock one second
  further at each call. The result is the returned messages, oldest first, and the store.\<close>

fun append_one_second_apart ::
  "(int \<Rightarrow> int) \<Rightarrow> store \<Rightarrow> datetime \<Rightarrow> int \<Rightarrow> int \<Rightarrow> int \<Rightarrow> string list
   \<Rightarrow> message_response list \<times> store"
where
  "append_one_second_apart tok s t0 cid sender receiver [] = ([], s)"
| "append_one_second_apart tok s t0 cid sender receiver (c # cs) =
     (let (m, s1) = create_message tok s t0 cid sender receiver c;
          (ms, s2) = append_one_second_apart tok s1 (t0 + second) cid sender receiver cs
      in (m # ms, s2))"

text \<open>Histories: the two writing operations, each with the clock reading of its call, run
  in sequence from the empty store.\<close>

datatype operation =
    CreateOrGetConversation int int datetime
  | CreateMessage int int int string datetime

fun step :: "(int \<Rightarrow> int) \<Rightarrow> store \<Rightarrow> operation \<Rightarrow> store" where
  "step tok s (CreateOrGetConversation user1_id user2_id now) =
     snd (create_or_get_conversation tok s now user1_id user2_id)"
| "step tok s (CreateMessage cid sender receiver text now) =
     snd (create_message tok s now cid sender receiver text)"

definition run :: "(int \<Rightarrow> int) \<Rightarrow> operation list \<Rightarrow> store" where
  "run tok ops = foldl (step tok) empty_store ops"



text \<open>The cache rows of the unordered pair of participants \<open>{a, b}\<close>. The data model asks
  for at most one conversation per unordered pair.\<close>

definition pair_rows :: "store \<Rightarrow> int \<Rightarrow> int \<Rightarrow> cache_row list" where
  "pair_rows s a b =
     filter (\<lambda>r. lc_sender_id r = a \<and> lc_receiver_id r = b
                \<or> lc_sender_id r = b \<and> lc_receiver_id r = a) (last_message_cache s)"

text \<open>A small store: three messages appended to conversation 1 of an empty store.\<close>

definition example_store :: store where
  "example_store = snd (append_one_second_apart (\<lambda>x. x) empty_store 0 1 7 9 [''a'', ''b'', ''c''])"




text \<open>A small history: a conversation with one message, then a second conversation of the
  same user with none.\<close>

definition example_history :: "operation list" where
  "example_history = [CreateOrGetConversation 7 9 10, CreateMessage 1 7 9 ''hi'' 20,
                      CreateOrGetConversation 7 8 30]"

text \<open>The conversation id that the two lookups of \<open>create_or_get_conversation\<close> find, if
  any.\<close>

definition found_id :: "store \<Rightarrow> int \<Rightarrow> int \<Rightarrow> int option" where
  "found_id s a b =
     (case select_cache_by_pair s a b of
        row # _ \<Rightarrow> Some (lc_conversation_id row)
      | [] \<Rightarrow>
         (case select_cache_by_pair s b a of
            row # _ \<Rightarrow> Some (lc_conversation_id row)
          | [] \<Rightarrow> None))"

text \<open>A \<open>create_message\<close> call is addressed when the conversation has a cache row and the
  sender and receiver of the message are its two users.\<close>

fun addressed :: "store \<Rightarrow> operation \<Rightarrow> bool" where
  "addressed s (CreateOrGetConversation user1_id user2_id now) = True"
| "addressed s (CreateMessage cid sender receiver text now) =
     (case select_cache s cid of
        [] \<Rightarrow> False
      | row # _ \<Rightarrow> lc_sender_id row = sender \<and> lc_receiver_id row = receiver
                 \<or> lc_sender_id row = receiver \<and> lc_receiver_id row = sender)"

text \<open>A history all of whose \<open>create_message\<close> calls are addressed, from a given store.\<close>

fun well_addressed :: "(int \<Rightarrow> int) \<Rightarrow> store \<Rightarrow> operation list \<Rightarrow> bool" where
  "well_addressed tok s [] = True"
| "well_addressed tok s (x # xs) = (addressed s x \<and> well_addressed tok (step tok s x) xs)"

text \<open>The invariant of the data model on the cache: rows in scan order, and at most one row
  per unordered pair of participants.\<close>

definition one_row_per_pair :: "(int \<Rightarrow> int) \<Rightarrow> store \<Rightarrow> bool" where
  "one_row_per_pair tok s \<longleftrightarrow>
     sorted_wrt (<) (map (cache_key tok) (last_message_cache s))
     \<and> (\<forall>a b. length (pair_rows s a b) \<le> 1)"

section \<open>Properties\<close>

subsection \<open>Slices\<close>

lemma take_min_length: "take (min m (length ys)) ys = take m ys"
  by (cases "m \<le> length ys") (simp_all add: min_def)

lemma py_slice_nonneg:
  assumes a: "0 \<le> a" and l: "0 \<le> l"
  shows "py_slice xs a (a + l) = take (nat l) (drop (nat a) xs)"
proof (cases "a \<le> int (length xs)")
  case False
  then show ?thesis using a l by (simp add: py_slice_def py_index_def Let_def min_def)
next
  case True
  have "nat (min (a + l) (int (length xs)) - a) = min (nat l) (length (drop (nat a) xs))"
    using a l True by (simp add: min_def) linarith
  moreover have "py_slice xs a (a + l)
      = take (nat (min (a + l) (int (length xs)) - a)) (drop (nat a) xs)"
    using a l True by (simp add: py_slice_def py_index_def Let_def min_absorb1)
  ultimately show ?thesis
    by (simp only: take_min_length)
qed

lemma py_slice_beyond: "int (length xs) \<le> a \<Longrightarrow> py_slice xs a b = []"
  by (auto simp: py_slice_def py_index_def Let_def min_def max_def)

lemma py_slice_Nil: "py_slice [] a b = []"
  by (simp add: py_slice_def)

subsection \<open>Writes to the cache\<close>

lemma cache_key_eq:
  "cache_key tok r = cache_key tok x \<longleftrightarrow> lc_conversation_id r = lc_conversation_id x"
  by (auto simp: cache_key_def)

lemma filter_upsert_cache_hd:
  "\<exists>rest. filter (\<lambda>x. lc_conversation_id x = lc_conversation_id r)
            (upsert_by (cache_key tok) r xs) = r # rest"
  by (induction xs) (auto simp: cache_key_eq)

lemma select_cache_write_cache:
  "\<exists>rest. select_cache (write_cache tok r s) (lc_conversation_id r) = r # rest"
  using filter_upsert_cache_hd [of r tok "last_message_cache s"]
  by (simp add: select_cache_def write_cache_def)

text \<open>
  C5. Right after \<open>create_message(cid, s, r, c)\<close>, \<open>get_conversation(cid)\<close> returns a
  snapshot whose last message content is \<open>c\<close>, whose last timestamp is the timestamp
  stamped on the created message, and whose sender and receiver are \<open>s\<close> and \<open>r\<close>; this
  holds in every store and for every conversation id, since the UPDATE writes the row
  whether or not it was there.
\<close>

theorem create_message_updates_cache:
  "get_conversation (snd (create_message tok s now cid sender receiver text)) cid =
     Some \<lparr>cv_conversation_id = cid, cv_sender_id = sender, cv_receiver_id = receiver,
           cv_last_message_at =
             Some (timestamp (fst (create_message tok s now cid sender receiver text))),
           cv_last_message_content = Some text\<rparr>
   \<and> timestamp (fst (create_message tok s now cid sender receiver text)) = now
   \<and> content (fst (create_message tok s now cid sender receiver text)) = text"
proof -
  let ?r = "\<lparr>lc_conversation_id = cid, lc_sender_id = sender, lc_receiver_id = receiver,
             lc_last_timestamp = Some now, lc_last_message = Some text\<rparr>"
  let ?s1 = "insert_message tok
               \<lparr>mr_message_id = get_new_message_id s, mr_conversation_id = cid,
                mr_sender_id = sender, mr_receiver_id = receiver, mr_content = text,
                mr_timestamp = now\<rparr> s"
  obtain rest where "select_cache (write_cache tok ?r ?s1) (lc_conversation_id ?r) = ?r # rest"
    using select_cache_write_cache by blast
  then have "select_cache (write_cache tok ?r ?s1) cid = ?r # rest" by simp
  then show ?thesis
    by (simp add: create_message_def get_conversation_def Let_def conversation_response_of_def)
qed

subsection \<open>Reads of absent data\<close>

lemma select_messages_empty:
  "\<forall>r \<in> set (messages s). mr_conversation_id r \<noteq> cid \<Longrightarrow> select_messages s cid = []"
  by (simp add: select_messages_def filter_empty_conv)

lemma select_messages_before_empty:
  "\<forall>r \<in> set (messages s). mr_conversation_id r \<noteq> cid \<Longrightarrow>
   select_messages_before s cid t = []"
  by (simp add: select_messages_before_def filter_empty_conv)

text \<open>
  C9. Reads return a value on absent data: \<open>get_conversation\<close> of a conversation id with
  no cache row is \<open>None\<close>, and both message listings of a conversation with no message
  rows are the empty list with total count 0, for every page and limit. No branch of the
  three functions raises.
\<close>

theorem reads_on_absent_data:
  "((\<forall>r \<in> set (last_message_cache s). lc_conversation_id r \<noteq> cid) \<longrightarrow>
      get_conversation s cid = None)
   \<and> ((\<forall>r \<in> set (messages s). mr_conversation_id r \<noteq> cid) \<longrightarrow>
      get_conversation_messages s cid page limit = ([], 0)
      \<and> get_messages_before_timestamp s cid before_timestamp page limit = ([], 0))"
  by (simp add: get_conversation_def select_cache_def filter_empty_conv
      get_conversation_messages_def get_messages_before_timestamp_def
      select_messages_empty select_messages_before_empty py_slice_Nil Let_def)

theorem reads_on_absent_data_witness:
  "filter (\<lambda>r. lc_conversation_id r = 2)
     (last_message_cache (snd (create_message (\<lambda>x. x) empty_store 10 1 7 9 ''hello''))) = []
   \<and> filter (\<lambda>r. mr_conversation_id r = 2)
     (messages (snd (create_message (\<lambda>x. x) empty_store 10 1 7 9 ''hello''))) = []
   \<and> get_conversation (snd (create_message (\<lambda>x. x) empty_store 10 1 7 9 ''hello'')) 2 = None
   \<and> get_conversation_messages
        (snd (create_message (\<lambda>x. x) empty_store 10 1 7 9 ''hello'')) 2 1 20 = ([], 0)
   \<and> get_messages_before_timestamp
        (snd (create_message (\<lambda>x. x) empty_store 10 1 7 9 ''hello'')) 2 50 1 20 = ([], 0)"
  using reads_on_absent_data
    [of "snd (create_message (\<lambda>x. x) empty_store 10 1 7 9 ''hello'')" 2 1 20 50]
  by (simp add: create_message_def empty_store_def get_new_message_id_def insert_message_def
      write_cache_def Let_def)

subsection \<open>The two message listings\<close>

lemma gcm_eq:
  "get_conversation_messages s cid page limit =
     (py_slice (all_messages s cid) ((page - 1) * limit) ((page - 1) * limit + limit),
      int (length (all_messages s cid)))"
  by (simp add: get_conversation_messages_def all_messages_def Let_def)

lemma length_all_messages:
  "length (all_messages s cid) = length (filter (\<lambda>r. mr_conversation_id r = cid) (messages s))"
  by (simp add: all_messages_def select_messages_def)

lemma mset_all_messages:
  "mset (all_messages s cid) =
     mset (map (message_item_of cid) (filter (\<lambda>r. mr_conversation_id r = cid) (messages s)))"
  by (simp add: all_messages_def select_messages_def)

lemma sorted_select_messages:
  "sorted_wrt (\<lambda>a b. mr_timestamp b \<le> mr_timestamp a) (select_messages s cid)"
proof -
  have "sorted (map (\<lambda>r. - mr_timestamp r) (select_messages s cid))"
    by (simp add: select_messages_def)
  then show ?thesis by (simp add: sorted_map)
qed

lemma sorted_all_messages:
  "sorted_wrt (\<lambda>a b. mi_created_at b \<le> mi_created_at a) (all_messages s cid)"
  using sorted_select_messages [of s cid]
  by (simp add: all_messages_def sorted_wrt_map message_item_of_def)

lemma gcm_page:
  assumes "1 \<le> page" "1 \<le> limit"
  shows "get_conversation_messages s cid page limit =
     (take (nat limit) (drop (nat ((page - 1) * limit)) (all_messages s cid)),
      int (length (all_messages s cid)))"
  using assms py_slice_nonneg [of "(page - 1) * limit" limit "all_messages s cid"]
  by (simp add: gcm_eq)

lemma select_before_filter:
  "select_messages_before s cid t = filter (\<lambda>r. mr_timestamp r < t) (select_messages s cid)"
  by (simp add: select_messages_before_def select_messages_def filter_sort conj_commute)

lemma before_items:
  "map (message_item_of cid) (select_messages_before s cid t) =
     filter (\<lambda>m. mi_created_at m < t) (all_messages s cid)"
  by (simp add: select_before_filter all_messages_def filter_map o_def message_item_of_def)

lemma gmb_eq:
  "get_messages_before_timestamp s cid t page limit =
     (py_slice (filter (\<lambda>m. mi_created_at m < t) (all_messages s cid))
        ((page - 1) * limit) ((page - 1) * limit + limit),
      int (length (filter (\<lambda>m. mi_created_at m < t) (all_messages s cid))))"
proof -
  have "length (select_messages_before s cid t) =
        length (filter (\<lambda>m. mi_created_at m < t) (all_messages s cid))"
    using arg_cong [OF before_items [of cid s t], of length] by simp
  then show ?thesis
    by (simp add: get_messages_before_timestamp_def before_items Let_def)
qed

lemma sorted_wrt_py_slice: "sorted_wrt R xs \<Longrightarrow> sorted_wrt R (py_slice xs a b)"
  by (simp add: py_slice_def Let_def sorted_wrt_take sorted_wrt_drop)

lemma count_before:
  "length (filter (\<lambda>m. mi_created_at m < t) (all_messages s cid)) =
   length (filter (\<lambda>r. mr_conversation_id r = cid \<and> mr_timestamp r < t) (messages s))"
  using arg_cong [OF before_items [of cid s t], of length]
  by (simp add: select_messages_before_def)

text \<open>
  C4. \<open>get_messages_before_timestamp(cid, T, page, limit)\<close> returns the page (the slice
  at offset \<open>(page - 1) * limit\<close>) of exactly those entries of the full listing of
  \<open>get_conversation_messages\<close> whose timestamp is strictly less than \<open>T\<close>, in the same
  newest-first order, and its total count is the number of stored messages of the
  conversation with timestamp \<open>< T\<close>. The full listing \<open>all_messages\<close> is what
  \<open>get_conversation_messages\<close> returns for page 1 with a limit as large as the conversation.
\<close>

theorem messages_before_timestamp_filter:
  "get_messages_before_timestamp s cid t page limit =
     (py_slice (filter (\<lambda>m. mi_created_at m < t) (all_messages s cid))
        ((page - 1) * limit) ((page - 1) * limit + limit),
      int (length (filter (\<lambda>r. mr_conversation_id r = cid \<and> mr_timestamp r < t) (messages s))))
   \<and> sorted_wrt (\<lambda>a b. mi_created_at b \<le> mi_created_at a)
        (fst (get_messages_before_timestamp s cid t page limit))
   \<and> fst (get_conversation_messages s cid 1 (int (length (all_messages s cid))))
        = all_messages s cid"
proof -
  have "sorted_wrt (\<lambda>a b. mi_created_at b \<le> mi_created_at a)
          (filter (\<lambda>m. mi_created_at m < t) (all_messages s cid))"
    using sorted_all_messages by (rule sorted_wrt_filter)
  then have "sorted_wrt (\<lambda>a b. mi_created_at b \<le> mi_created_at a)
        (fst (get_messages_before_timestamp s cid t page limit))"
    by (simp add: gmb_eq sorted_wrt_py_slice)
  moreover have "fst (get_conversation_messages s cid 1 (int (length (all_messages s cid))))
        = all_messages s cid"
    using py_slice_nonneg [of 0 "int (length (all_messages s cid))" "all_messages s cid"]
    by (simp add: gcm_eq)
  ultimately show ?thesis
    by (simp add: gmb_eq count_before)
qed

text \<open>
  C10. A page beyond the data is empty and still reports the whole count: when
  \<open>(page - 1) * limit\<close> is at least the number \<open>T\<close> of qualifying messages, both listings
  return the empty list with total count \<open>T\<close>.
\<close>

theorem out_of_range_page_empty:
  "(int (length (filter (\<lambda>r. mr_conversation_id r = cid) (messages s))) \<le> (page - 1) * limit \<longrightarrow>
      get_conversation_messages s cid page limit =
        ([], int (length (filter (\<lambda>r. mr_conversation_id r = cid) (messages s)))))
   \<and> (int (length (filter (\<lambda>r. mr_conversation_id r = cid \<and> mr_timestamp r < t) (messages s)))
         \<le> (page - 1) * limit \<longrightarrow>
      get_messages_before_timestamp s cid t page limit =
        ([], int (length (filter (\<lambda>r. mr_conversation_id r = cid \<and> mr_timestamp r < t)
                            (messages s)))))"
  by (simp add: gcm_eq gmb_eq py_slice_beyond count_before length_all_messages)

lemma example_store_messages:
  "messages example_store =
     [\<lparr>mr_message_id = 3, mr_conversation_id = 1, mr_sender_id = 7, mr_receiver_id = 9,
       mr_content = ''c'', mr_timestamp = 2000000\<rparr>,
      \<lparr>mr_message_id = 2, mr_conversation_id = 1, mr_sender_id = 7, mr_receiver_id = 9,
       mr_content = ''b'', mr_timestamp = 1000000\<rparr>,
      \<lparr>mr_message_id = 1, mr_conversation_id = 1, mr_sender_id = 7, mr_receiver_id = 9,
       mr_content = ''a'', mr_timestamp = 0\<rparr>]"
  by (simp add: example_store_def create_message_def empty_store_def get_new_message_id_def
      insert_message_def write_cache_def message_key_def second_def Let_def)

lemma example_all_messages:
  "all_messages example_store 1 =
     [\<lparr>mi_id = 3, mi_sender_id = 7, mi_receiver_id = 9, mi_content = ''c'',
       mi_created_at = 2000000, mi_conversation_id = 1\<rparr>,
      \<lparr>mi_id = 2, mi_sender_id = 7, mi_receiver_id = 9, mi_content = ''b'',
       mi_created_at = 1000000, mi_conversation_id = 1\<rparr>,
      \<lparr>mi_id = 1, mi_sender_id = 7, mi_receiver_id = 9, mi_content = ''a'',
       mi_created_at = 0, mi_conversation_id = 1\<rparr>]"
  by (simp add: all_messages_def select_messages_def example_store_messages message_item_of_def)

theorem out_of_range_page_empty_witness:
  "get_conversation_messages example_store 1 3 2 = ([], 3)
   \<and> get_messages_before_timestamp example_store 1 1500000 2 2 = ([], 2)"
  using out_of_range_page_empty [of 1 example_store 3 2 1500000] out_of_range_page_empty [of 1 example_store 2 2 1500000]
  by (simp add: example_store_messages)

subsection \<open>All pages together\<close>

lemma concat_pages:
  "concat (map (\<lambda>p. take L (drop ((p - 1) * L) xs)) [1..<Suc k]) = take (k * L) xs"
proof (induction k)
  case 0
  then show ?case by simp
next
  case (Suc k)
  have "concat (map (\<lambda>p. take L (drop ((p - 1) * L) xs)) [1..<Suc (Suc k)])
      = take (k * L) xs @ take L (drop (k * L) xs)"
    using Suc by simp
  also have "\<dots> = take (k * L + L) xs"
    by (simp add: take_add)
  finally show ?case by (simp add: add.commute)
qed

lemma gcm_page_nat:
  assumes "1 \<le> p" "1 \<le> limit"
  shows "fst (get_conversation_messages s cid (int p) limit) =
     take (nat limit) (drop ((p - 1) * nat limit) (all_messages s cid))"
proof -
  have "nat ((int p - 1) * limit) = (p - 1) * nat limit"
    using assms by (simp add: nat_mult_distrib nat_diff_distrib')
  then show ?thesis using assms by (simp add: gcm_page)
qed

lemma pages_cover:
  assumes "1 \<le> (L::nat)"
  shows "T \<le> ((T + L - 1) div L) * L" and "p \<le> (T + L - 1) div L \<Longrightarrow> 1 \<le> p \<Longrightarrow> (p - 1) * L < T"
proof -
  let ?k = "(T + L - 1) div L"
  have eq: "?k * L + (T + L - 1) mod L = T + L - 1" by simp
  have "(T + L - 1) mod L < L" using assms by simp
  then show "T \<le> ?k * L" using eq by linarith
  assume p: "p \<le> ?k" "1 \<le> p"
  have "?k * L \<le> T + L - 1" using eq by linarith
  moreover have "p * L \<le> ?k * L" using p by simp
  moreover have "(p - 1) * L + L = p * L"
  proof -
    obtain q where "p = Suc q" using p(2) by (cases p) simp_all
    then show ?thesis by simp
  qed
  ultimately show "(p - 1) * L < T" using assms by linarith
qed

text \<open>
  C6. For every limit \<open>\<ge> 1\<close>, the pages 1, 2, ..., \<open>k\<close> of \<open>get_conversation_messages\<close>,
  concatenated in order, are the full newest-first listing; here \<open>k\<close> is the number of
  pages, every one of them is non-empty and page \<open>k + 1\<close> is the first empty one. The
  listing holds each stored message of the conversation as often as the table does, so
  nothing is repeated and nothing is left out.
\<close>

theorem pages_concat_all_messages:
  assumes "1 \<le> limit"
    and "k = (length (all_messages s cid) + nat limit - 1) div nat limit"
  shows "concat (map (\<lambda>p. fst (get_conversation_messages s cid (int p) limit)) [1..<Suc k])
           = all_messages s cid
       \<and> (\<forall>p \<in> {1..k}. fst (get_conversation_messages s cid (int p) limit) \<noteq> [])
       \<and> fst (get_conversation_messages s cid (int (Suc k)) limit) = []
       \<and> mset (all_messages s cid) =
           mset (map (message_item_of cid)
                  (filter (\<lambda>r. mr_conversation_id r = cid) (messages s)))"
proof -
  let ?L = "nat limit" and ?xs = "all_messages s cid"
  have L: "1 \<le> ?L" using assms(1) by simp
  have cover: "length ?xs \<le> k * ?L"
    using pages_cover(1) [OF L] assms(2) by simp
  have "map (\<lambda>p. fst (get_conversation_messages s cid (int p) limit)) [1..<Suc k]
      = map (\<lambda>p. take ?L (drop ((p - 1) * ?L) ?xs)) [1..<Suc k]"
  proof (rule map_cong [OF refl])
    fix p assume "p \<in> set [1..<Suc k]"
    then have "1 \<le> p" by auto
    then show "fst (get_conversation_messages s cid (int p) limit)
        = take ?L (drop ((p - 1) * ?L) ?xs)"
      using assms(1) by (rule gcm_page_nat)
  qed
  then have c1: "concat (map (\<lambda>p. fst (get_conversation_messages s cid (int p) limit)) [1..<Suc k])
      = ?xs"
    using cover by (simp only: concat_pages) simp
  have c2: "fst (get_conversation_messages s cid (int p) limit) \<noteq> []" if "p \<in> {1..k}" for p
  proof -
    have "(p - 1) * ?L < length ?xs"
      using pages_cover(2) [OF L, of p "length ?xs"] that assms(2) by simp
    moreover have "fst (get_conversation_messages s cid (int p) limit)
        = take ?L (drop ((p - 1) * ?L) ?xs)"
      using that assms(1) by (intro gcm_page_nat) simp_all
    ultimately show ?thesis using L by simp
  qed
  have "fst (get_conversation_messages s cid (int (Suc k)) limit)
      = take ?L (drop ((Suc k - 1) * ?L) ?xs)"
    using assms(1) by (intro gcm_page_nat) simp_all
  then have c3: "fst (get_conversation_messages s cid (int (Suc k)) limit) = []"
    using cover by (simp del: of_nat_Suc)
  from c2 have c2': "\<forall>p \<in> {1..k}. fst (get_conversation_messages s cid (int p) limit) \<noteq> []"
    by (rule ballI)
  show ?thesis
    by (rule conjI [OF c1 conjI [OF c2' conjI [OF c3 mset_all_messages]]])
qed

theorem pages_concat_all_messages_witness:
  "concat (map (\<lambda>p. fst (get_conversation_messages example_store 1 (int p) 2)) [1..<Suc 2])
     = all_messages example_store 1
   \<and> fst (get_conversation_messages example_store 1 (int (Suc 2)) 2) = []
   \<and> length (all_messages example_store 1) = 3"
  using pages_concat_all_messages [of 2 2 example_store 1]
  by (simp add: example_all_messages)


subsection \<open>Appending to a conversation\<close>

lemma message_key_eq:
  "message_key tok r = message_key tok x \<longleftrightarrow>
     mr_conversation_id r = mr_conversation_id x \<and> mr_timestamp r = mr_timestamp x"
  by (auto simp: message_key_def)

lemma set_upsert_by: "set (upsert_by key r xs) \<subseteq> insert r (set xs)"
  by (induction xs) auto

lemma sort_filter_upsert_newest:
  assumes "\<forall>x \<in> set xs. mr_conversation_id x = mr_conversation_id r \<longrightarrow> mr_timestamp x < mr_timestamp r"
  shows "sort_key (\<lambda>r. - mr_timestamp r)
           (filter (\<lambda>x. mr_conversation_id x = mr_conversation_id r)
              (upsert_by (message_key tok) r xs))
         = r # sort_key (\<lambda>r. - mr_timestamp r)
                 (filter (\<lambda>x. mr_conversation_id x = mr_conversation_id r) xs)"
  using assms
proof (induction xs)
  case Nil
  then show ?case by simp
next
  case (Cons x xs)
  let ?f = "\<lambda>r. - mr_timestamp r" and ?P = "\<lambda>x. mr_conversation_id x = mr_conversation_id r"
  have ne: "message_key tok r \<noteq> message_key tok x"
    using Cons.prems by (auto simp: message_key_eq)
  show ?case
  proof (cases "message_key tok r < message_key tok x")
    case True
    have "\<forall>y \<in> set (sort_key ?f (filter ?P (x # xs))). ?f r \<le> ?f y"
      using Cons.prems by (auto simp: less_imp_le)
    then have "insort_key ?f r (sort_key ?f (filter ?P (x # xs)))
        = r # sort_key ?f (filter ?P (x # xs))"
      by (rule insort_is_Cons)
    then show ?thesis using True ne by simp
  next
    case False
    have IH: "sort_key ?f (filter ?P (upsert_by (message_key tok) r xs))
        = r # sort_key ?f (filter ?P xs)"
      using Cons.IH Cons.prems by simp
    show ?thesis
    proof (cases "?P x")
      case True
      then have "mr_timestamp x < mr_timestamp r" using Cons.prems by simp
      then show ?thesis using False ne IH True by simp
    next
      case no: False
      then show ?thesis using False ne IH by simp
    qed
  qed
qed

lemma select_messages_create_message:
  assumes "\<forall>x \<in> set (messages s). mr_conversation_id x = cid \<longrightarrow> mr_timestamp x < now"
  shows "all_messages (snd (create_message tok s now cid sender receiver text)) cid =
     item_of_response (fst (create_message tok s now cid sender receiver text))
       # all_messages s cid"
proof -
  let ?r = "\<lparr>mr_message_id = get_new_message_id s, mr_conversation_id = cid,
              mr_sender_id = sender, mr_receiver_id = receiver, mr_content = text,
              mr_timestamp = now\<rparr>"
  have "sort_key (\<lambda>r. - mr_timestamp r)
           (filter (\<lambda>x. mr_conversation_id x = mr_conversation_id ?r)
              (upsert_by (message_key tok) ?r (messages s)))
         = ?r # sort_key (\<lambda>r. - mr_timestamp r)
                 (filter (\<lambda>x. mr_conversation_id x = mr_conversation_id ?r) (messages s))"
    using assms by (intro sort_filter_upsert_newest) simp
  then show ?thesis
    by (simp add: all_messages_def select_messages_def create_message_def Let_def
        insert_message_def write_cache_def message_item_of_def item_of_response_def)
qed

lemma messages_create_message:
  "set (messages (snd (create_message tok s now cid sender receiver text))) \<subseteq>
     insert \<lparr>mr_message_id = get_new_message_id s, mr_conversation_id = cid,
              mr_sender_id = sender, mr_receiver_id = receiver, mr_content = text,
              mr_timestamp = now\<rparr> (set (messages s))"
  using set_upsert_by [of "message_key tok" _ "messages s"]
  by (simp add: create_message_def Let_def insert_message_def write_cache_def)

lemma second_pos: "0 < second"
  by (simp add: second_def)

lemma append_one_second_apart_listing:
  assumes "\<forall>x \<in> set (messages s). mr_conversation_id x = cid \<longrightarrow> mr_timestamp x < t0"
  shows "all_messages (snd (append_one_second_apart tok s t0 cid sender receiver cs)) cid
       = rev (map item_of_response (fst (append_one_second_apart tok s t0 cid sender receiver cs)))
           @ all_messages s cid
     \<and> length (fst (append_one_second_apart tok s t0 cid sender receiver cs)) = length cs"
  using assms
proof (induction cs arbitrary: s t0)
  case Nil
  then show ?case by simp
next
  case (Cons c cs)
  let ?s1 = "snd (create_message tok s t0 cid sender receiver c)"
  have "\<forall>x \<in> set (messages ?s1). mr_conversation_id x = cid \<longrightarrow> mr_timestamp x < t0 + second"
  proof (intro ballI impI)
    fix x assume x: "x \<in> set (messages ?s1)" "mr_conversation_id x = cid"
    from x(1) messages_create_message [of tok s t0 cid sender receiver c]
    consider "mr_timestamp x = t0" | "x \<in> set (messages s)" by auto
    then show "mr_timestamp x < t0 + second"
    proof cases
      case 1
      then show ?thesis using second_pos by simp
    next
      case 2
      then have "mr_timestamp x < t0" using Cons.prems x(2) by simp
      then show ?thesis using second_pos by simp
    qed
  qed
  from Cons.IH [OF this] select_messages_create_message [OF Cons.prems, of tok sender receiver c]
  show ?case
    by (simp add: split_beta Let_def)
qed

lemma append_one_second_apart_responses:
  "map timestamp (fst (append_one_second_apart tok s t0 cid sender receiver cs))
     = map (\<lambda>i. t0 + int i * second) [0..<length cs]
   \<and> map content (fst (append_one_second_apart tok s t0 cid sender receiver cs)) = cs"
proof (induction cs arbitrary: s t0)
  case Nil
  then show ?case by simp
next
  case (Cons c cs)
  have "map (\<lambda>i. t0 + int i * second) [0..<length (c # cs)]
      = t0 # map (\<lambda>i. t0 + second + int i * second) [0..<length cs]"
    by (simp add: upt_conv_Cons map_Suc_upt [symmetric] algebra_simps del: upt_Suc)
  then show ?case using Cons.IH [of "snd (create_message tok s t0 cid sender receiver c)" "t0 + second"]
    by (simp add: split_beta Let_def create_message_def del: upt_Suc)
qed

lemma scenario_25:
  assumes none: "\<forall>x \<in> set (messages s). mr_conversation_id x \<noteq> cid"
    and len: "length cs = 25"
    and run: "append_one_second_apart tok s t0 cid sender receiver cs = (ms, s')"
  shows "get_conversation_messages s' cid 2 20 = (rev (map item_of_response (take 5 ms)), 25)"
    and "map mi_created_at (fst (get_conversation_messages s' cid 2 20))
           = [t0 + 4 * second, t0 + 3 * second, t0 + 2 * second, t0 + second, t0]"
    and "map mi_content (fst (get_conversation_messages s' cid 2 20)) = rev (take 5 cs)"
proof -
  have pre: "\<forall>x \<in> set (messages s). mr_conversation_id x = cid \<longrightarrow> mr_timestamp x < t0"
    using none by simp
  have old: "all_messages s cid = []"
    using none by (simp add: all_messages_def select_messages_empty)
  have all: "all_messages s' cid = rev (map item_of_response ms)" and lms: "length ms = 25"
    using append_one_second_apart_listing [OF pre, of tok sender receiver cs] run old len
    by simp_all
  have "get_conversation_messages s' cid 2 20 =
      (take 20 (drop 20 (rev (map item_of_response ms))), 25)"
    using gcm_page [of 2 20 s' cid] all lms by simp
  moreover have "drop 20 (rev (map item_of_response ms)) = rev (map item_of_response (take 5 ms))"
    using lms by (simp add: drop_rev take_map)
  ultimately show res: "get_conversation_messages s' cid 2 20
      = (rev (map item_of_response (take 5 ms)), 25)"
    using lms by simp
  have ts: "map timestamp ms = map (\<lambda>i. t0 + int i * second) [0..<25]"
    and ct: "map content ms = cs"
    using append_one_second_apart_responses [of tok s t0 cid sender receiver cs] run len
    by simp_all
  have "map mi_created_at (rev (map item_of_response (take 5 ms)))
      = rev (take 5 (map timestamp ms))"
    by (simp add: rev_map take_map o_def item_of_response_def)
  also have "\<dots> = rev (map (\<lambda>i. t0 + int i * second) [0..<5])"
    by (simp only: ts take_map) simp
  also have "\<dots> = [t0 + 4 * second, t0 + 3 * second, t0 + 2 * second, t0 + second, t0]"
  proof -
    have "[0..<5] = [0, 1, 2, 3, 4 :: nat]" by code_simp
    then show ?thesis by simp
  qed
  finally show "map mi_created_at (fst (get_conversation_messages s' cid 2 20))
           = [t0 + 4 * second, t0 + 3 * second, t0 + 2 * second, t0 + second, t0]"
    by (simp add: res)
  have "map mi_content (rev (map item_of_response (take 5 ms))) = rev (take 5 (map content ms))"
    by (simp add: rev_map take_map o_def item_of_response_def)
  then show "map mi_content (fst (get_conversation_messages s' cid 2 20)) = rev (take 5 cs)"
    by (simp add: res ct)
qed

text \<open>
  C3. For every page \<open>\<ge> 1\<close> and limit \<open>\<ge> 1\<close>, \<open>get_conversation_messages\<close> returns the
  \<open>limit\<close> entries at offset \<open>(page - 1) * limit\<close> of the full listing of the conversation
  (so page 1 is its first \<open>limit\<close> entries), and the total count is the number of all
  stored messages of the conversation. The full listing is sorted newest first and holds
  exactly the stored messages of the conversation. In particular, after 25 messages are
  appended one second apart to a conversation that had none, page 2 with limit 20 is the
  5 messages appended first, newest of them first, with total count 25.
\<close>

theorem conversation_messages_pages:
  "(1 \<le> page \<and> 1 \<le> limit \<longrightarrow>
      get_conversation_messages s cid page limit =
        (take (nat limit) (drop (nat ((page - 1) * limit)) (all_messages s cid)),
         int (length (filter (\<lambda>r. mr_conversation_id r = cid) (messages s)))))
   \<and> sorted_wrt (\<lambda>a b. mi_created_at b \<le> mi_created_at a) (all_messages s cid)
   \<and> mset (all_messages s cid) =
       mset (map (message_item_of cid)
              (filter (\<lambda>r. mr_conversation_id r = cid) (messages s)))
   \<and> ((\<forall>x \<in> set (messages s). mr_conversation_id x \<noteq> cid) \<and> length cs = 25 \<longrightarrow>
        (let (ms, s') = append_one_second_apart tok s t0 cid sender receiver cs;
             (page2, total_count) = get_conversation_messages s' cid 2 20
         in page2 = rev (map item_of_response (take 5 ms))
            \<and> map mi_created_at page2 =
                [t0 + 4 * second, t0 + 3 * second, t0 + 2 * second, t0 + second, t0]
            \<and> map mi_content page2 = rev (take 5 cs)
            \<and> total_count = 25))"
proof -
  have a: "1 \<le> page \<and> 1 \<le> limit \<longrightarrow>
      get_conversation_messages s cid page limit =
        (take (nat limit) (drop (nat ((page - 1) * limit)) (all_messages s cid)),
         int (length (filter (\<lambda>r. mr_conversation_id r = cid) (messages s))))"
    by (simp add: gcm_page length_all_messages)
  have d: "(\<forall>x \<in> set (messages s). mr_conversation_id x \<noteq> cid) \<and> length cs = 25 \<longrightarrow>
        (let (ms, s') = append_one_second_apart tok s t0 cid sender receiver cs;
             (page2, total_count) = get_conversation_messages s' cid 2 20
         in page2 = rev (map item_of_response (take 5 ms))
            \<and> map mi_created_at page2 =
                [t0 + 4 * second, t0 + 3 * second, t0 + 2 * second, t0 + second, t0]
            \<and> map mi_content page2 = rev (take 5 cs)
            \<and> total_count = 25)"
  proof (intro impI, elim conjE)
    assume none: "\<forall>x \<in> set (messages s). mr_conversation_id x \<noteq> cid" and len: "length cs = 25"
    obtain ms s' where run: "append_one_second_apart tok s t0 cid sender receiver cs = (ms, s')"
      by (cases "append_one_second_apart tok s t0 cid sender receiver cs")
    show "(let (ms, s') = append_one_second_apart tok s t0 cid sender receiver cs;
             (page2, total_count) = get_conversation_messages s' cid 2 20
         in page2 = rev (map item_of_response (take 5 ms))
            \<and> map mi_created_at page2 =
                [t0 + 4 * second, t0 + 3 * second, t0 + 2 * second, t0 + second, t0]
            \<and> map mi_content page2 = rev (take 5 cs)
            \<and> total_count = 25)"
      using scenario_25 [OF none len run] by (simp add: run)
  qed
  show ?thesis
    by (rule conjI [OF a conjI [OF sorted_all_messages conjI [OF mset_all_messages d]]])
qed

theorem conversation_messages_pages_witness:
  "get_conversation_messages example_store 1 2 2 =
     ([\<lparr>mi_id = 1, mi_sender_id = 7, mi_receiver_id = 9, mi_content = ''a'',
        mi_created_at = 0, mi_conversation_id = 1\<rparr>], 3)
   \<and> length (replicate 25 ''hello'') = 25
   \<and> (let (ms, s') = append_one_second_apart (\<lambda>x. x) empty_store 0 1 7 9 (replicate 25 ''hello'');
          (page2, total_count) = get_conversation_messages s' 1 2 20
      in map mi_created_at page2 = [4000000, 3000000, 2000000, 1000000, 0]
         \<and> total_count = 25)"
proof -
  have h: "(\<forall>x \<in> set (messages empty_store). mr_conversation_id x \<noteq> 1)
      \<and> length (replicate 25 ''hello'') = 25"
    by (simp add: empty_store_def)
  have p: "(1::int) \<le> 2 \<and> (1::int) \<le> 2" by simp
  have "get_conversation_messages example_store 1 2 2 =
     ([\<lparr>mi_id = 1, mi_sender_id = 7, mi_receiver_id = 9, mi_content = ''a'',
        mi_created_at = 0, mi_conversation_id = 1\<rparr>], 3)"
    using conversation_messages_pages [of 2 2 example_store 1 "[]" "\<lambda>x. x" 0 7 9, THEN conjunct1, THEN mp, OF p]
    by (simp add: example_all_messages example_store_messages)
  moreover have "(let (ms, s') = append_one_second_apart (\<lambda>x. x) empty_store 0 1 7 9 (replicate 25 ''hello'');
          (page2, total_count) = get_conversation_messages s' 1 2 20
      in map mi_created_at page2 = [4000000, 3000000, 2000000, 1000000, 0]
         \<and> total_count = 25)"
    using conversation_messages_pages [of 2 2 empty_store 1 "replicate 25 ''hello''" "\<lambda>x. x" 0 7 9,
        THEN conjunct2, THEN conjunct2, THEN conjunct2, THEN mp, OF h]
    unfolding split_beta Let_def second_def
    by (elim conjE) simp
  ultimately show ?thesis by simp
qed

subsection \<open>Concrete histories\<close>

lemmas eval_defs = run_def empty_store_def create_message_def create_or_get_conversation_def
  get_new_message_id_def get_new_conversation_id_def insert_message_def insert_conversation_def
  write_cache_def message_key_def conversation_key_def cache_key_def select_cache_by_pair_def
  select_cache_def get_conversation_def conversation_response_of_def Let_def

lemma example_history_cache:
  "last_message_cache (run (\<lambda>x. x) example_history) =
     [\<lparr>lc_conversation_id = 1, lc_sender_id = 7, lc_receiver_id = 9,
       lc_last_timestamp = Some 20, lc_last_message = Some ''hi''\<rparr>,
      \<lparr>lc_conversation_id = 2, lc_sender_id = 7, lc_receiver_id = 8,
       lc_last_timestamp = Some 30, lc_last_message = None\<rparr>]"
  by (simp add: example_history_def eval_defs)


subsection \<open>Identifier allocation\<close>

text \<open>
  C2 (the code departs from it). \<open>get_new_message_id\<close> and \<open>get_new_conversation_id\<close> add
  one to the id of the first row the scan returns, whatever the other rows hold. With
  partitions scanned in the order of their conversation ids: after one message in
  conversation 1 and one in conversation 2 the stored message ids are 1 and 2 and the next
  id handed out is 2 again, so the three messages of the history get the ids 1, 2, 2; and
  after two conversations are created, with ids 1 and 2, the next conversation id is 2
  again. With the partitions scanned in the opposite order the message ids repeat in the
  same way once conversation 2 has received the first message.
\<close>

theorem id_allocation_repeats:
  "map mr_message_id
     (messages (run (\<lambda>x. x) [CreateMessage 1 7 9 ''a'' 10, CreateMessage 2 7 8 ''b'' 20])) = [1, 2]
   \<and> get_new_message_id
       (run (\<lambda>x. x) [CreateMessage 1 7 9 ''a'' 10, CreateMessage 2 7 8 ''b'' 20]) = 2
   \<and> map message_id
       [fst (create_message (\<lambda>x. x) empty_store 10 1 7 9 ''a''),
        fst (create_message (\<lambda>x. x)
          (run (\<lambda>x. x) [CreateMessage 1 7 9 ''a'' 10]) 20 2 7 8 ''b''),
        fst (create_message (\<lambda>x. x)
          (run (\<lambda>x. x) [CreateMessage 1 7 9 ''a'' 10, CreateMessage 2 7 8 ''b'' 20])
            30 2 8 7 ''c'')] = [1, 2, 2]
   \<and> map cr_conversation_id
       (conversations (run (\<lambda>x. x)
          [CreateOrGetConversation 7 9 10, CreateOrGetConversation 7 8 20])) = [1, 2]
   \<and> get_new_conversation_id
       (run (\<lambda>x. x) [CreateOrGetConversation 7 9 10, CreateOrGetConversation 7 8 20]) = 2
   \<and> map mr_message_id
       (messages (run uminus [CreateMessage 2 7 8 ''a'' 10, CreateMessage 1 7 9 ''b'' 20])) = [1, 2]
   \<and> get_new_message_id
       (run uminus [CreateMessage 2 7 8 ''a'' 10, CreateMessage 1 7 9 ''b'' 20]) = 2"
  by (simp add: eval_defs)

subsection \<open>Histories and the cache\<close>

lemma sorted_upsert_by:
  "sorted_wrt (<) (map key xs) \<Longrightarrow> sorted_wrt (<) (map key (upsert_by key r xs))"
proof (induction xs)
  case Nil
  then show ?case by simp
next
  case (Cons x xs)
  show ?case
  proof (cases "key r = key x")
    case True
    then show ?thesis using Cons.prems by simp
  next
    case ne: False
    show ?thesis
    proof (cases "key r < key x")
      case True
      then show ?thesis using Cons.prems ne by (auto intro: less_trans)
    next
      case False
      then have lt: "key x < key r" using ne by simp
      have "\<forall>y \<in> set (upsert_by key r xs). key x < key y"
        using set_upsert_by [of key r xs] Cons.prems lt by auto
      then show ?thesis using Cons False ne by simp
    qed
  qed
qed

lemma set_upsert_by_sorted:
  "sorted_wrt (<) (map key xs) \<Longrightarrow>
   set (upsert_by key r xs) = insert r {x \<in> set xs. key x \<noteq> key r}"
proof (induction xs)
  case Nil
  then show ?case by simp
next
  case (Cons x xs)
  show ?case
  proof (cases "key r = key x")
    case True
    have "\<forall>y \<in> set xs. key y \<noteq> key r" using Cons.prems True by auto
    then show ?thesis using True by auto
  next
    case ne: False
    show ?thesis
    proof (cases "key r < key x")
      case True
      have "\<forall>y \<in> set xs. key y \<noteq> key r" using Cons.prems True by auto
      then show ?thesis using True ne by auto
    next
      case False
      then show ?thesis using Cons ne by auto
    qed
  qed
qed



lemma cache_create_message:
  "last_message_cache (snd (create_message tok s now cid sender receiver text)) =
     upsert_by (cache_key tok)
       \<lparr>lc_conversation_id = cid, lc_sender_id = sender, lc_receiver_id = receiver,
        lc_last_timestamp = Some now, lc_last_message = Some text\<rparr> (last_message_cache s)"
  by (simp add: create_message_def Let_def write_cache_def insert_message_def)







subsection \<open>The cache row of a conversation\<close>


lemma select_cache_by_pair_upsert:
  assumes "filter P xs = []" "P r"
  shows "filter P (upsert_by key r xs) = [r]"
  using assms by (induction xs) (auto split: if_splits)




subsection \<open>The conversations of a user\<close>














subsection \<open>Creating or getting a conversation twice\<close>

lemma get_conversation_of_row:
  assumes "row \<in> set (last_message_cache s)"
  shows "\<exists>c. get_conversation s (lc_conversation_id row) = Some c
             \<and> cv_conversation_id c = lc_conversation_id row"
proof -
  have "row \<in> set (select_cache s (lc_conversation_id row))"
    using assms by (simp add: select_cache_def)
  then obtain x xs where sel: "select_cache s (lc_conversation_id row) = x # xs"
    by (cases "select_cache s (lc_conversation_id row)") auto
  then have "x \<in> set (select_cache s (lc_conversation_id row))" by simp
  then have "lc_conversation_id x = lc_conversation_id row"
    by (simp add: select_cache_def)
  then show ?thesis using sel
    by (simp add: get_conversation_def conversation_response_of_def)
qed

lemma pair_head_in_cache:
  "select_cache_by_pair s a b = row # rest \<Longrightarrow> row \<in> set (last_message_cache s)"
  by (metis filter_is_subset list.set_intros(1) select_cache_by_pair_def subsetD)

lemma create_or_get_found:
  assumes "found_id s a b = Some c"
  shows "snd (create_or_get_conversation tok s now a b) = s"
    and "map_option cv_conversation_id (fst (create_or_get_conversation tok s now a b)) = Some c"
proof -
  show "snd (create_or_get_conversation tok s now a b) = s"
    using assms
    by (auto simp: create_or_get_conversation_def found_id_def split: list.splits)
  show "map_option cv_conversation_id (fst (create_or_get_conversation tok s now a b)) = Some c"
  proof (cases "select_cache_by_pair s a b")
    case (Cons row rest)
    then have "c = lc_conversation_id row" using assms by (simp add: found_id_def)
    moreover obtain r where "get_conversation s (lc_conversation_id row) = Some r"
      "cv_conversation_id r = lc_conversation_id row"
      using get_conversation_of_row [OF pair_head_in_cache [OF Cons]] by blast
    ultimately show ?thesis using Cons by (simp add: create_or_get_conversation_def)
  next
    case Nil
    then obtain row rest where ba: "select_cache_by_pair s b a = row # rest"
      using assms by (auto simp: found_id_def split: list.splits)
    then have "c = lc_conversation_id row" using assms Nil by (simp add: found_id_def)
    moreover obtain r where "get_conversation s (lc_conversation_id row) = Some r"
      "cv_conversation_id r = lc_conversation_id row"
      using get_conversation_of_row [OF pair_head_in_cache [OF ba]] by blast
    ultimately show ?thesis using Nil ba by (simp add: create_or_get_conversation_def)
  qed
qed

lemma filter_upsert_none:
  assumes "filter P xs = []" "\<not> P r"
  shows "filter P (upsert_by key r xs) = []"
  using assms by (induction xs) (auto split: if_splits)

lemma create_or_get_created:
  assumes "found_id s a b = None"
  shows "map_option cv_conversation_id (fst (create_or_get_conversation tok s now a b))
           = Some (get_new_conversation_id s)"
    and "found_id (snd (create_or_get_conversation tok s now a b)) a b
           = Some (get_new_conversation_id s)"
    and "found_id (snd (create_or_get_conversation tok s now a b)) b a
           = Some (get_new_conversation_id s)"
proof -
  let ?r = "\<lparr>lc_conversation_id = get_new_conversation_id s, lc_sender_id = a,
             lc_receiver_id = b, lc_last_timestamp = Some now, lc_last_message = None\<rparr>"
  have e: "select_cache_by_pair s a b = []" "select_cache_by_pair s b a = []"
    using assms by (auto simp: found_id_def split: list.splits)
  then have cache: "last_message_cache (snd (create_or_get_conversation tok s now a b)) =
      upsert_by (cache_key tok) ?r (last_message_cache s)"
    by (simp add: create_or_get_conversation_def Let_def write_cache_def insert_conversation_def)
  show "map_option cv_conversation_id (fst (create_or_get_conversation tok s now a b))
           = Some (get_new_conversation_id s)"
    using e by (simp add: create_or_get_conversation_def Let_def)
  have ab: "select_cache_by_pair (snd (create_or_get_conversation tok s now a b)) a b = [?r]"
    using e(1) by (simp add: select_cache_by_pair_def cache select_cache_by_pair_upsert)
  then show "found_id (snd (create_or_get_conversation tok s now a b)) a b
           = Some (get_new_conversation_id s)"
    by (simp add: found_id_def)
  show "found_id (snd (create_or_get_conversation tok s now a b)) b a
           = Some (get_new_conversation_id s)"
  proof (cases "a = b")
    case True
    then show ?thesis using ab by (simp add: found_id_def)
  next
    case False
    then have "select_cache_by_pair (snd (create_or_get_conversation tok s now a b)) b a = []"
      using e(2) by (simp add: select_cache_by_pair_def cache filter_upsert_none)
    then show ?thesis using ab by (simp add: found_id_def)
  qed
qed

lemma filter_pair_rows:
  "(\<And>r. P r \<Longrightarrow> lc_sender_id r = a \<and> lc_receiver_id r = b
                \<or> lc_sender_id r = b \<and> lc_receiver_id r = a) \<Longrightarrow>
   filter P (pair_rows s a b) = filter P (last_message_cache s)"
proof (induction "last_message_cache s" arbitrary: s)
  case Nil
  then show ?case by (simp add: pair_rows_def)
next
  case (Cons x xs)
  have "filter P (filter (\<lambda>r. lc_sender_id r = a \<and> lc_receiver_id r = b
                \<or> lc_sender_id r = b \<and> lc_receiver_id r = a) ys) = filter P ys" for ys
    using Cons.prems by (induction ys) auto
  then show ?case by (simp add: pair_rows_def)
qed

lemma found_id_swap:
  assumes "length (pair_rows s a b) \<le> 1"
  shows "found_id s b a = found_id s a b"
proof -
  have f1: "select_cache_by_pair s a b =
      filter (\<lambda>r. lc_sender_id r = a \<and> lc_receiver_id r = b) (pair_rows s a b)"
    unfolding select_cache_by_pair_def by (rule filter_pair_rows [symmetric]) simp
  have f2: "select_cache_by_pair s b a =
      filter (\<lambda>r. lc_sender_id r = b \<and> lc_receiver_id r = a) (pair_rows s a b)"
    unfolding select_cache_by_pair_def by (rule filter_pair_rows [symmetric]) simp
  show ?thesis
  proof (cases "pair_rows s a b")
    case Nil
    then show ?thesis by (simp add: found_id_def f1 f2)
  next
    case (Cons u us)
    then have one: "pair_rows s a b = [u]" using assms by simp
    have g1: "select_cache_by_pair s a b =
        (if lc_sender_id u = a \<and> lc_receiver_id u = b then [u] else [])"
      by (simp only: f1 one filter.simps)
    have g2: "select_cache_by_pair s b a =
        (if lc_sender_id u = b \<and> lc_receiver_id u = a then [u] else [])"
      by (simp only: f2 one filter.simps)
    show ?thesis
      by (simp only: found_id_def g1 g2 list.case split: if_split) blast
  qed
qed

lemma length_filter_upsert_by:
  "length (filter P (upsert_by key r xs)) \<le> length (filter P xs) + (if P r then 1 else 0)"
  by (induction xs) auto

lemma pair_rows_empty:
  "found_id s a b = None \<Longrightarrow> pair_rows s a b = []"
  by (auto simp: found_id_def pair_rows_def select_cache_by_pair_def filter_empty_conv
      split: list.splits)

lemma one_row_per_pair_create_or_get:
  assumes "one_row_per_pair tok s"
  shows "one_row_per_pair tok (snd (create_or_get_conversation tok s now a b))"
proof (cases "found_id s a b")
  case (Some c)
  then show ?thesis using assms create_or_get_found(1) [OF Some] by simp
next
  case None
  let ?r = "\<lparr>lc_conversation_id = get_new_conversation_id s, lc_sender_id = a,
             lc_receiver_id = b, lc_last_timestamp = Some now, lc_last_message = None\<rparr>"
  let ?s1 = "snd (create_or_get_conversation tok s now a b)"
  have "select_cache_by_pair s a b = []" "select_cache_by_pair s b a = []"
    using None by (auto simp: found_id_def split: list.splits)
  then have cache: "last_message_cache ?s1 = upsert_by (cache_key tok) ?r (last_message_cache s)"
    by (simp add: create_or_get_conversation_def Let_def write_cache_def insert_conversation_def)
  have "length (pair_rows ?s1 a' b') \<le> 1" for a' b'
  proof -
    let ?P = "\<lambda>r. lc_sender_id r = a' \<and> lc_receiver_id r = b'
                \<or> lc_sender_id r = b' \<and> lc_receiver_id r = a'"
    have le: "length (pair_rows ?s1 a' b') \<le> length (pair_rows s a' b') + (if ?P ?r then 1 else 0)"
      unfolding pair_rows_def cache by (rule length_filter_upsert_by)
    show ?thesis
    proof (cases "?P ?r")
      case False
      have "length (pair_rows s a' b') \<le> 1" using assms by (simp add: one_row_per_pair_def)
      with le False show ?thesis by (auto split: if_splits)
    next
      case True
      then have "a = a' \<and> b = b' \<or> a = b' \<and> b = a'" by simp
      then have "pair_rows s a' b' = pair_rows s a b"
      proof
        assume "a = a' \<and> b = b'"
        then show ?thesis by simp
      next
        assume "a = b' \<and> b = a'"
        then show ?thesis by (simp add: pair_rows_def disj_commute)
      qed
      then show ?thesis using le True pair_rows_empty [OF None] by simp
    qed
  qed
  moreover have "sorted_wrt (<) (map (cache_key tok) (last_message_cache ?s1))"
    unfolding cache using assms by (intro sorted_upsert_by) (simp add: one_row_per_pair_def)
  ultimately show ?thesis by (simp add: one_row_per_pair_def)
qed

lemma one_row_per_pair_create_message:
  assumes inv: "one_row_per_pair tok s"
    and adr: "addressed s (CreateMessage cid sender receiver body now)"
  shows "one_row_per_pair tok (snd (create_message tok s now cid sender receiver body))"
proof -
  let ?r = "\<lparr>lc_conversation_id = cid, lc_sender_id = sender, lc_receiver_id = receiver,
             lc_last_timestamp = Some now, lc_last_message = Some body\<rparr>"
  let ?s1 = "snd (create_message tok s now cid sender receiver body)"
  let ?c = "last_message_cache s"
  have cache: "last_message_cache ?s1 = upsert_by (cache_key tok) ?r ?c"
    by (rule cache_create_message)
  have srt: "sorted_wrt (<) (map (cache_key tok) ?c)"
    using inv by (simp add: one_row_per_pair_def)
  have srt1: "sorted_wrt (<) (map (cache_key tok) (last_message_cache ?s1))"
    unfolding cache using srt by (rule sorted_upsert_by)
  then have dist: "distinct (last_message_cache ?s1)"
    using strict_sorted_iff distinct_map by blast
  obtain x0 rest where sel: "select_cache s cid = x0 # rest"
    and pr: "lc_sender_id x0 = sender \<and> lc_receiver_id x0 = receiver
             \<or> lc_sender_id x0 = receiver \<and> lc_receiver_id x0 = sender"
    using adr by (auto split: list.splits)
  have "x0 \<in> set (select_cache s cid)" using sel by simp
  then have x0: "x0 \<in> set ?c" "lc_conversation_id x0 = cid"
    by (simp_all add: select_cache_def)
  have "length (pair_rows ?s1 a' b') \<le> 1" for a' b'
  proof -
    let ?P = "\<lambda>r. lc_sender_id r = a' \<and> lc_receiver_id r = b'
                \<or> lc_sender_id r = b' \<and> lc_receiver_id r = a'"
    show ?thesis
    proof (cases "?P ?r")
      case False
      have "length (pair_rows ?s1 a' b') \<le> length (pair_rows s a' b') + (if ?P ?r then 1 else 0)"
        unfolding pair_rows_def cache by (rule length_filter_upsert_by)
      moreover have "length (pair_rows s a' b') \<le> 1"
        using inv by (simp add: one_row_per_pair_def)
      ultimately show ?thesis using False by (auto split: if_splits)
    next
      case True
      then have px0: "?P x0" using pr by auto
      have one: "length (filter ?P ?c) \<le> 1"
        using inv by (simp add: one_row_per_pair_def pair_rows_def)
      have only: "x = x0" if "x \<in> set ?c" "?P x" for x
      proof -
        have "x \<in> set (filter ?P ?c)" "x0 \<in> set (filter ?P ?c)"
          using that x0(1) px0 by simp_all
        then show ?thesis using one
          by (cases "filter ?P ?c") (auto split: if_splits)
      qed
      have "set (filter ?P (last_message_cache ?s1)) \<subseteq> {?r}"
      proof
        fix x assume "x \<in> set (filter ?P (last_message_cache ?s1))"
        then have mem: "x \<in> set (upsert_by (cache_key tok) ?r ?c)" and px: "?P x"
          by (simp_all add: cache)
        from mem have "x = ?r \<or> (x \<in> set ?c \<and> cache_key tok x \<noteq> cache_key tok ?r)"
          using set_upsert_by_sorted [OF srt, of ?r] by auto
        then show "x \<in> {?r}"
        proof
          assume "x = ?r" then show ?thesis by simp
        next
          assume a: "x \<in> set ?c \<and> cache_key tok x \<noteq> cache_key tok ?r"
          then have "x = x0" using only px by blast
          then have False using a x0(2) by (simp add: cache_key_eq)
          then show ?thesis ..
        qed
      qed
      moreover have "distinct (filter ?P (last_message_cache ?s1))"
        using dist by (rule distinct_filter)
      ultimately have "length (filter ?P (last_message_cache ?s1)) \<le> card {?r}"
        using card_mono [of "{?r}" "set (filter ?P (last_message_cache ?s1))"]
        by (simp only: distinct_card finite.emptyI finite.insertI)
      then show ?thesis by (simp add: pair_rows_def)
    qed
  qed
  then show ?thesis using srt1 by (simp add: one_row_per_pair_def)
qed

lemma one_row_per_pair_step:
  "one_row_per_pair tok s \<Longrightarrow> addressed s x \<Longrightarrow> one_row_per_pair tok (step tok s x)"
  by (cases x) (simp_all only: step.simps one_row_per_pair_create_or_get
      one_row_per_pair_create_message)

lemma one_row_per_pair_foldl:
  "one_row_per_pair tok s \<Longrightarrow> well_addressed tok s ops \<Longrightarrow>
   one_row_per_pair tok (foldl (step tok) s ops)"
  by (induction ops arbitrary: s) (simp_all add: one_row_per_pair_step)

lemma one_row_per_pair_run:
  "well_addressed tok empty_store ops \<Longrightarrow> length (pair_rows (run tok ops) a b) \<le> 1"
proof -
  assume w: "well_addressed tok empty_store ops"
  have "one_row_per_pair tok empty_store"
    by (simp add: one_row_per_pair_def empty_store_def pair_rows_def)
  then have "one_row_per_pair tok (run tok ops)"
    unfolding run_def using w by (rule one_row_per_pair_foldl)
  then show ?thesis by (simp add: one_row_per_pair_def)
qed


text \<open>
  C1, as stated, fails in the swapped order when the cache holds two rows for the pair.
  After conversation 1 of users 7 and 9 and conversation 2 of users 3 and 4 are created, a
  message from 9 to 7 written under conversation id 2 leaves the row of conversation 2 with
  sender 9 and receiver 7; \<open>create_or_get_conversation(7, 9)\<close> then returns conversation 1
  and \<open>create_or_get_conversation(9, 7)\<close> right after it returns conversation 2.
\<close>

theorem swapped_lookup_other_conversation:
  "map_option cv_conversation_id
     (fst (create_or_get_conversation (\<lambda>x. x)
        (run (\<lambda>x. x) [CreateOrGetConversation 7 9 10, CreateOrGetConversation 3 4 20,
                       CreateMessage 2 9 7 ''x'' 30]) 40 7 9))
     = Some 1
   \<and> map_option cv_conversation_id
     (fst (create_or_get_conversation (\<lambda>x. x)
        (snd (create_or_get_conversation (\<lambda>x. x)
          (run (\<lambda>x. x) [CreateOrGetConversation 7 9 10, CreateOrGetConversation 3 4 20,
                         CreateMessage 2 9 7 ''x'' 30]) 40 7 9)) 50 9 7))
     = Some 2"
  by (simp add: eval_defs)

text \<open>
  C1, amended. Calling \<open>create_or_get_conversation(A, B)\<close> and then calling it again with
  \<open>(A, B)\<close> returns a conversation both times, with the same conversation id, and the second
  call leaves the store as the first left it. The same holds for a second call with
  \<open>(B, A)\<close> when the cache holds at most one row for the unordered pair before the first
  call; that is so in every store reached from the empty one by a history whose
  \<open>create_message\<close> calls are each made for an existing conversation with that
  conversation's two users as sender and receiver.
\<close>

theorem create_or_get_twice:
  "fst (create_or_get_conversation tok s now a b) \<noteq> None
   \<and> map_option cv_conversation_id
       (fst (create_or_get_conversation tok (snd (create_or_get_conversation tok s now a b)) now' a b))
     = map_option cv_conversation_id (fst (create_or_get_conversation tok s now a b))
   \<and> snd (create_or_get_conversation tok (snd (create_or_get_conversation tok s now a b)) now' a b)
     = snd (create_or_get_conversation tok s now a b)
   \<and> (length (pair_rows s a b) \<le> 1 \<longrightarrow>
        map_option cv_conversation_id
          (fst (create_or_get_conversation tok (snd (create_or_get_conversation tok s now a b)) now' b a))
        = map_option cv_conversation_id (fst (create_or_get_conversation tok s now a b))
        \<and> snd (create_or_get_conversation tok (snd (create_or_get_conversation tok s now a b)) now' b a)
        = snd (create_or_get_conversation tok s now a b))
   \<and> (well_addressed tok empty_store ops \<longrightarrow> length (pair_rows (run tok ops) a b) \<le> 1)"
proof -
  have main: "fst (create_or_get_conversation tok s now a b) \<noteq> None
   \<and> map_option cv_conversation_id
       (fst (create_or_get_conversation tok (snd (create_or_get_conversation tok s now a b)) now' a b))
     = map_option cv_conversation_id (fst (create_or_get_conversation tok s now a b))
   \<and> snd (create_or_get_conversation tok (snd (create_or_get_conversation tok s now a b)) now' a b)
     = snd (create_or_get_conversation tok s now a b)
   \<and> (length (pair_rows s a b) \<le> 1 \<longrightarrow>
        map_option cv_conversation_id
          (fst (create_or_get_conversation tok (snd (create_or_get_conversation tok s now a b)) now' b a))
        = map_option cv_conversation_id (fst (create_or_get_conversation tok s now a b))
        \<and> snd (create_or_get_conversation tok (snd (create_or_get_conversation tok s now a b)) now' b a)
        = snd (create_or_get_conversation tok s now a b))"
  proof (cases "found_id s a b")
    case None
    let ?s1 = "snd (create_or_get_conversation tok s now a b)"
    note c = create_or_get_created [OF None, of tok now]
    show ?thesis
      using c(1) create_or_get_found [OF c(2), of tok now'] create_or_get_found [OF c(3), of tok now']
      by auto
  next
    case (Some c)
    note f = create_or_get_found [OF Some]
    have s1: "snd (create_or_get_conversation tok s now a b) = s" by (rule f(1))
    have "length (pair_rows s a b) \<le> 1 \<Longrightarrow> found_id s b a = Some c"
      using found_id_swap Some by simp
    then show ?thesis
      using f(2) [of tok now] f(2) [of tok now'] f(1) [of tok now']
        create_or_get_found [of s b a c tok now']
      by (auto simp: s1)
  qed
  have hist: "well_addressed tok empty_store ops \<longrightarrow> length (pair_rows (run tok ops) a b) \<le> 1"
    using one_row_per_pair_run by blast
  show ?thesis
    using main hist by (elim conjE) (intro conjI)
qed

theorem create_or_get_twice_witness:
  "well_addressed (\<lambda>x. x) empty_store example_history
   \<and> length (pair_rows (run (\<lambda>x. x) example_history) 9 7) = 1
   \<and> map_option cv_conversation_id
       (fst (create_or_get_conversation (\<lambda>x. x) (run (\<lambda>x. x) example_history) 40 9 7)) = Some 1
   \<and> map_option cv_conversation_id
       (fst (create_or_get_conversation (\<lambda>x. x)
          (snd (create_or_get_conversation (\<lambda>x. x) (run (\<lambda>x. x) example_history) 40 9 7))
          50 7 9)) = Some 1
   \<and> snd (create_or_get_conversation (\<lambda>x. x)
          (snd (create_or_get_conversation (\<lambda>x. x) (run (\<lambda>x. x) example_history) 40 9 7))
          50 7 9) = run (\<lambda>x. x) example_history"
proof -
  note t = create_or_get_twice
    [of "\<lambda>x. x" "run (\<lambda>x. x) example_history" 40 9 7 50 example_history]
  have w: "well_addressed (\<lambda>x. x) empty_store example_history"
    by (simp add: example_history_def eval_defs)
  have h: "length (pair_rows (run (\<lambda>x. x) example_history) 9 7) \<le> 1"
    using t [THEN conjunct2, THEN conjunct2, THEN conjunct2, THEN conjunct2, THEN mp, OF w] .
  have first: "create_or_get_conversation (\<lambda>x. x) (run (\<lambda>x. x) example_history) 40 9 7 =
     (Some \<lparr>cv_conversation_id = 1, cv_sender_id = 7, cv_receiver_id = 9,
            cv_last_message_at = Some 20, cv_last_message_content = Some ''hi''\<rparr>,
      run (\<lambda>x. x) example_history)"
    by (simp add: create_or_get_conversation_def select_cache_by_pair_def example_history_cache
        get_conversation_def select_cache_def conversation_response_of_def)
  show ?thesis
    using t [THEN conjunct2, THEN conjunct2, THEN conjunct2, THEN conjunct1, THEN mp, OF h] w
    by (simp add: first pair_rows_def example_history_cache)
qed

end
